theory Spec2Isabelle
  imports Main "HOL-Library.Sublist"
begin

section \<open>Strings\<close>

text \<open>
  A JavaScript string is modelled as a \<open>string\<close> (a list of \<open>char\<close>), one \<open>char\<close> per
  code unit, for the code units U+0000 to U+00FF (ASCII and Latin-1).

  \<open>toLowerCase\<close> maps \<open>A\<close>..\<open>Z\<close> and the letters U+00C0..U+00DE (all but the sign
  U+00D7) to the code unit 32 above; every other code unit of the range is kept.
  \<open>toUpperCase\<close> maps \<open>a\<close>..\<open>z\<close> and the letters U+00E0..U+00FE (all but the sign
  U+00F7) to the code unit 32 below, and the sharp s U+00DF to the two letters \<open>SS\<close>.
  The upper-case forms of the micro sign U+00B5 and of U+00FF are the code units
  U+039C and U+0178, which a \<open>char\<close> cannot hold: these two letters are kept as they
  are, and names that contain them are outside of what the embedding covers.
  \<open>plainCase\<close> holds of the strings without U+00B5, U+00DF and U+00FF.
\<close>

definition toUpperChar :: "char \<Rightarrow> string" where
  "toUpperChar c =
     (let n = (of_char c :: nat)
      in if 97 \<le> n \<and> n \<le> 122 then [char_of (n - 32)]
         else if 224 \<le> n \<and> n \<le> 254 \<and> n \<noteq> 247 then [char_of (n - 32)]
         else if n = 223 then ''SS''
         else [c])"

definition toLowerChar :: "char \<Rightarrow> char" where
  "toLowerChar c =
     (let n = (of_char c :: nat)
      in if 65 \<le> n \<and> n \<le> 90 then char_of (n + 32)
         else if 192 \<le> n \<and> n \<le> 222 \<and> n \<noteq> 215 then char_of (n + 32)
         else c)"

definition toUpperCase :: "string \<Rightarrow> string" where
  "toUpperCase s = concat (map toUpperChar s)"

definition toLowerCase :: "string \<Rightarrow> string" where
  "toLowerCase s = map toLowerChar s"


text \<open>
  \<open>text.indexOf(pat, pos)\<close>: the least index \<open>k\<close> with \<open>min pos (length text) \<le> k\<close> at
  which \<open>pat\<close> occurs in \<open>text\<close>; \<open>None\<close> stands for the result \<open>-1\<close>.
\<close>

fun indexOfAux :: "string \<Rightarrow> string \<Rightarrow> nat \<Rightarrow> nat option" where
  "indexOfAux pat [] k = (if pat = [] then Some k else None)"
| "indexOfAux pat (c # cs) k =
     (if prefix pat (c # cs) then Some k else indexOfAux pat cs (Suc k))"

definition indexOf :: "string \<Rightarrow> string \<Rightarrow> nat \<Rightarrow> nat option" where
  "indexOf text pat pos = (let k = min pos (length text) in indexOfAux pat (drop k text) k)"

text \<open>
  \<open>text.substring(a, b)\<close>: both indices are clamped to the length of the text and
  swapped when \<open>a > b\<close>.
\<close>

definition substring :: "string \<Rightarrow> nat \<Rightarrow> nat \<Rightarrow> string" where
  "substring text a b =
     (let a' = min a (length text); b' = min b (length text);
          lo = min a' b'; hi = max a' b'
      in take (hi - lo) (drop lo text))"

text \<open>
  \<open>s.trim()\<close> strips the white space and the line terminators at both ends. In the
  range U+0000 to U+00FF these are tab, line feed, vertical tab, form feed, carriage
  return, space and the no-break space U+00A0.
\<close>

definition isWhiteSpace :: "char \<Rightarrow> bool" where
  "isWhiteSpace c =
     (c \<in> set [CHR 0x09, CHR 0x0A, CHR 0x0B, CHR 0x0C, CHR 0x0D, CHR 0x20, CHR 0xA0])"

definition trim :: "string \<Rightarrow> string" where
  "trim s = rev (dropWhile isWhiteSpace (rev (dropWhile isWhiteSpace s)))"


section \<open>Data model\<close>

text \<open>
  \<open>Section\<close> is declared in \<open>VisualiserUI.tsx\<close>. \<open>Chunk\<close>, \<open>Output\<close>, \<open>NotebookEntry\<close> and
  \<open>Notebook\<close> are imported from \<open>@/lib/global.types\<close>; their fields are those of the
  object literals that \<open>sendMessage\<close> builds. The fields of a chunk carry the suffix
  \<open>_chunk\<close>, the identifiers the suffix of their record.
\<close>

record Section =
  type :: string
  content :: string

record Chunk =
  content_chunk :: string
  type_chunk :: string

record Output =
  version :: nat
  chunks :: "Chunk list"

record NotebookEntry =
  id_entry :: string
  createdAt :: string
  notebookId :: string
  userPrompt :: string
  sqlQueries :: "string list"
  outputs :: "Output list"

record Notebook =
  id_notebook :: string
  title :: string
  projectId :: string

text \<open>
  The enumeration \<open>OutputType\<close> is a parameter of the embedding: a TypeScript string
  enum, given as the list of its members (key, value) in declaration order.
  \<open>Object.values(OutputType)\<close> is \<open>map snd\<close> of it and \<open>OutputType.SQL\<close> is the value
  stored under the key \<open>SQL\<close>.
\<close>

type_synonym OutputTypeEnum = "(string \<times> string) list"

definition OutputType_SQL :: "OutputTypeEnum \<Rightarrow> string option" where
  "OutputType_SQL OutputType = map_of OutputType ''SQL''"

text \<open>
  Modelled from the spec: the declaration of \<open>OutputType\<close> in \<open>@/lib/global.types\<close> is
  not among the sources. The specification names the kinds \<open>sql\<close>, \<open>text\<close>, \<open>table\<close>
  and \<open>chart\<close>, in this order. The concrete examples below run on this enumeration.
\<close>

definition OutputType_spec :: OutputTypeEnum where
  "OutputType_spec =
     [(''SQL'', ''sql''), (''TEXT'', ''text''), (''TABLE'', ''table''), (''CHART'', ''chart'')]"


section \<open>extractSection\<close>

definition startMarker :: "string \<Rightarrow> string" where
  "startMarker ty = ''====='' @ toUpperCase ty @ ''=====''"

definition endMarker :: "string \<Rightarrow> string" where
  "endMarker ty = ''=====END '' @ toUpperCase ty @ ''=====''"

text \<open>
  The \<open>for\<close> loop of \<open>extractSection\<close> over \<open>allTypes\<close>. Both \<open>continue\<close> statements go
  on with the remaining types; the first type with a start marker and an end marker
  behind it returns.
\<close>

fun scanTypes :: "string list \<Rightarrow> string \<Rightarrow> Section option" where
  "scanTypes [] text = None"
| "scanTypes (ty # rest) text =
     (case indexOf text (startMarker ty) 0 of
        None \<Rightarrow> scanTypes rest text
      | Some startIndex \<Rightarrow>
          (let contentStartIndex = startIndex + length (startMarker ty)
           in case indexOf text (endMarker ty) contentStartIndex of
                None \<Rightarrow> scanTypes rest text
              | Some endIndex \<Rightarrow>
                  Some \<lparr>type = toLowerCase ty,
                        content = trim (substring text contentStartIndex endIndex)\<rparr>))"

definition extractSection :: "OutputTypeEnum \<Rightarrow> string \<Rightarrow> Section option" where
  "extractSection OutputType text = scanTypes (map (toUpperCase \<circ> snd) OutputType) text"

text \<open>
  A type's markers are complete in a text when the start marker occurs and the end
  marker occurs behind the first start marker: the condition under which the loop
  body of \<open>extractSection\<close> returns for this type.
\<close>

definition markersComplete :: "string \<Rightarrow> string \<Rightarrow> bool" where
  "markersComplete ty text =
     (case indexOf text (startMarker ty) 0 of
        None \<Rightarrow> False
      | Some startIndex \<Rightarrow>
          indexOf text (endMarker ty) (startIndex + length (startMarker ty)) \<noteq> None)"


section \<open>The read loop of sendMessage\<close>

text \<open>
  The body of the \<open>while\<close> loop for one decoded read \<open>message\<close>, on the last entry
  of \<open>localNotebookEntries\<close>. An entry without outputs first receives the output
  \<open>{version: 1, chunks: []}\<close>, whatever the message holds. Then the message alone is
  given to \<open>extractSection\<close>: a section of type \<open>OutputType.SQL\<close> is pushed onto
  \<open>sqlQueries\<close>, any other section becomes a chunk of the last output, with content
  \<open>section.content || message\<close> (the whole message when the content is empty). The
  list \<open>os\<close> is not empty, so \<open>last os\<close> is the \<open>latestOutput\<close> of the source.
\<close>

definition handleMessage :: "OutputTypeEnum \<Rightarrow> string \<Rightarrow> NotebookEntry \<Rightarrow> NotebookEntry" where
  "handleMessage OutputType message lastEntry =
     (let os = (if length (outputs lastEntry) = 0
                then outputs lastEntry @ [\<lparr>version = 1, chunks = []\<rparr>]
                else outputs lastEntry);
          latestOutput = last os
      in case extractSection OutputType message of
           None \<Rightarrow> lastEntry\<lparr>outputs := os\<rparr>
         | Some section \<Rightarrow>
             if Some (type section) = OutputType_SQL OutputType
             then lastEntry\<lparr>sqlQueries := sqlQueries lastEntry @ [content section], outputs := os\<rparr>
             else lastEntry\<lparr>outputs := butlast os @
                    [latestOutput\<lparr>chunks := chunks latestOutput @
                       [\<lparr>content_chunk = (if content section \<noteq> [] then content section else message),
                         type_chunk = type section\<rparr>]\<rparr>]\<rparr>)"

text \<open>
  The state of the component that \<open>sendMessage\<close> reads and sets, and the
  notifications it has shown (their messages).
\<close>

record UIState =
  isSendingMessage :: bool
  selectedNotebookId :: string
  notebooks :: "Notebook list"
  notebookEntries :: "NotebookEntry list"
  userSearch :: string
  notifications :: "string list"

text \<open>
  One \<open>await reader.read()\<close> either delivers the bytes of a read, given here by
  the text that \<open>new TextDecoder().decode(value)\<close> makes of them (each read is decoded
  by a decoder of its own), or is rejected. The end of the list is \<open>done\<close>.
\<close>

datatype ReadResult = Value string | Rejected

text \<open>
  A call of \<open>sendMessage\<close> returns, or it throws when a read is rejected (there is no
  handler); either way it leaves a state behind.
\<close>

datatype Outcome = Returned (finalState: UIState) | Threw (finalState: UIState)

definition notify :: "string \<Rightarrow> UIState \<Rightarrow> UIState" where
  "notify message st = st\<lparr>notifications := notifications st @ [message]\<rparr>"

text \<open>
  The \<open>while (!done)\<close> loop up to \<open>setIsSendingMessage(false)\<close>. Reading
  \<open>lastEntry.outputs\<close> of an empty list of entries would throw a TypeError.
\<close>

fun readLoop :: "OutputTypeEnum \<Rightarrow> ReadResult list \<Rightarrow> NotebookEntry list \<Rightarrow> UIState \<Rightarrow> Outcome" where
  "readLoop OutputType [] localNotebookEntries st = Returned (st\<lparr>isSendingMessage := False\<rparr>)"
| "readLoop OutputType (Rejected # reads) localNotebookEntries st = Threw st"
| "readLoop OutputType (Value message # reads) localNotebookEntries st =
     (if localNotebookEntries = [] then Threw st
      else
        let localNotebookEntries' = butlast localNotebookEntries @
              [handleMessage OutputType message (last localNotebookEntries)]
        in readLoop OutputType reads localNotebookEntries'
             (st\<lparr>notebookEntries := localNotebookEntries'\<rparr>))"

text \<open>
  What the collaborators answer during one call: the identifiers from \<open>v4()\<close>, the
  clock, the errors of the two inserts (\<open>None\<close> for success), and the response to the
  search request with its \<open>ok\<close> flag and its body (\<open>None\<close> for a missing body,
  otherwise the reads of its stream).
\<close>

record World =
  uuidNotebook :: string
  insertNotebookError :: "string option"
  uuidEntry :: string
  now :: string
  insertEntryError :: "string option"
  responseOk :: bool
  responseBody :: "ReadResult list option"

text \<open>
  \<open>sendMessage\<close> up to the end of the read loop (the request for a title that follows
  touches the notebooks' titles only). \<open>slice(0, -1)\<close> is \<open>butlast\<close>.
\<close>

definition sendMessage :: "OutputTypeEnum \<Rightarrow> string \<Rightarrow> World \<Rightarrow> UIState \<Rightarrow> Outcome" where
  "sendMessage OutputType project_id w st =
     (if isSendingMessage st then Returned st
      else
        let st1 = st\<lparr>isSendingMessage := True\<rparr>
        in if selectedNotebookId st = [] \<and> insertNotebookError w \<noteq> None
           then Returned ((notify ''Failed to create new notebook'' st1)\<lparr>isSendingMessage := False\<rparr>)
           else
             let notebookId' = (if selectedNotebookId st = [] then uuidNotebook w
                                else selectedNotebookId st);
                 st2 = (if selectedNotebookId st = []
                        then st1\<lparr>selectedNotebookId := uuidNotebook w,
                                 notebooks := notebooks st1 @
                                   [\<lparr>id_notebook = uuidNotebook w, title = ''Untitled Notebook'',
                                     projectId = project_id\<rparr>]\<rparr>
                        else st1);
                 newNotebookEntry = \<lparr>id_entry = uuidEntry w, createdAt = now w,
                                      notebookId = notebookId', userPrompt = userSearch st,
                                      sqlQueries = [], outputs = []\<rparr>;
                 localNotebookEntries = notebookEntries st @ [newNotebookEntry];
                 st3 = st2\<lparr>notebookEntries := localNotebookEntries\<rparr>
             in if insertEntryError w \<noteq> None
                then Returned ((notify ''Failed to create new notebook entry'' st3)
                       \<lparr>isSendingMessage := False, notebookEntries := butlast localNotebookEntries\<rparr>)
                else
                  let st4 = st3\<lparr>userSearch := []\<rparr>
                  in if \<not> responseOk w
                     then Returned ((notify ''Failed to send message'' st4)\<lparr>isSendingMessage := False\<rparr>)
                     else case responseBody w of
                            None \<Rightarrow> Returned ((notify ''Failed to get stream from response'' st4)
                                       \<lparr>isSendingMessage := False\<rparr>)
                          | Some stream \<Rightarrow> readLoop OutputType stream localNotebookEntries st4)"


text \<open>
  The entry that \<open>sendMessage\<close> creates and pushes onto \<open>localNotebookEntries\<close>
  before the insert.
\<close>

definition createdEntry :: "World \<Rightarrow> UIState \<Rightarrow> NotebookEntry" where
  "createdEntry w st =
     \<lparr>id_entry = uuidEntry w, createdAt = now w,
      notebookId = (if selectedNotebookId st = [] then uuidNotebook w else selectedNotebookId st),
      userPrompt = userSearch st, sqlQueries = [], outputs = []\<rparr>"


section \<open>What a stream of reads adds to an entry\<close>

text \<open>
  The last entry after the loop has handled the reads \<open>messages\<close>, one after the
  other.
\<close>

definition handleReads :: "OutputTypeEnum \<Rightarrow> string list \<Rightarrow> NotebookEntry \<Rightarrow> NotebookEntry" where
  "handleReads OutputType messages entry =
     foldl (\<lambda>e message. handleMessage OutputType message e) entry messages"

text \<open>
  The SQL statements and the chunks that one read contributes, looking at that read
  alone.
\<close>

definition sqlOfRead :: "OutputTypeEnum \<Rightarrow> string \<Rightarrow> string list" where
  "sqlOfRead OutputType message =
     (case extractSection OutputType message of
        None \<Rightarrow> []
      | Some section \<Rightarrow>
          if Some (type section) = OutputType_SQL OutputType then [content section] else [])"

definition chunksOfRead :: "OutputTypeEnum \<Rightarrow> string \<Rightarrow> Chunk list" where
  "chunksOfRead OutputType message =
     (case extractSection OutputType message of
        None \<Rightarrow> []
      | Some section \<Rightarrow>
          if Some (type section) = OutputType_SQL OutputType then []
          else [\<lparr>content_chunk = (if content section \<noteq> [] then content section else message),
                 type_chunk = type section\<rparr>])"

definition allChunks :: "NotebookEntry \<Rightarrow> Chunk list" where
  "allChunks entry = concat (map chunks (outputs entry))"

text \<open>
  \<open>outputsExtend os os'\<close>: every output of \<open>os\<close> is still in \<open>os'\<close> at its place, with
  its version, and its chunks are a prefix of the chunks it has in \<open>os'\<close>.
  \<open>entryExtends e e'\<close>: \<open>e'\<close> is \<open>e\<close> with SQL statements, outputs and chunks appended.
\<close>

fun outputsExtend :: "Output list \<Rightarrow> Output list \<Rightarrow> bool" where
  "outputsExtend [] os' = True"
| "outputsExtend (x # os) [] = False"
| "outputsExtend (x # os) (y # os') =
     (version x = version y \<and> prefix (chunks x) (chunks y) \<and> outputsExtend os os')"

definition entryExtends :: "NotebookEntry \<Rightarrow> NotebookEntry \<Rightarrow> bool" where
  "entryExtends e e' =
     (id_entry e' = id_entry e \<and> createdAt e' = createdAt e \<and> notebookId e' = notebookId e \<and>
      userPrompt e' = userPrompt e \<and> prefix (sqlQueries e) (sqlQueries e') \<and>
      outputsExtend (outputs e) (outputs e'))"


section \<open>A concrete call\<close>

text \<open>
  A state with one notebook selected, one earlier entry and a prompt typed in, and
  the answers of the collaborators when both inserts succeed and the response
  streams the given reads.
\<close>

definition entry0 :: NotebookEntry where
  "entry0 = \<lparr>id_entry = ''e0'', createdAt = ''2024-01-01T00:00:00Z'', notebookId = ''n1'',
             userPrompt = ''how many users'', sqlQueries = [''select count(*) from users''],
             outputs = [\<lparr>version = 1, chunks = [\<lparr>content_chunk = ''42'', type_chunk = ''text''\<rparr>]\<rparr>]\<rparr>"

definition ui0 :: UIState where
  "ui0 = \<lparr>isSendingMessage = False, selectedNotebookId = ''n1'',
          notebooks = [\<lparr>id_notebook = ''n1'', title = ''Untitled Notebook'', projectId = ''p1''\<rparr>],
          notebookEntries = [entry0], userSearch = ''list the tables'', notifications = []\<rparr>"

definition newEntry :: NotebookEntry where
  "newEntry = \<lparr>id_entry = ''e1'', createdAt = ''2024-01-02T00:00:00Z'', notebookId = ''n1'',
               userPrompt = ''list the tables'', sqlQueries = [], outputs = []\<rparr>"

definition streaming :: "ReadResult list \<Rightarrow> World" where
  "streaming reads = \<lparr>uuidNotebook = ''n2'', insertNotebookError = None, uuidEntry = ''e1'',
                      now = ''2024-01-02T00:00:00Z'', insertEntryError = None,
                      responseOk = True, responseBody = Some reads\<rparr>"


section \<open>Properties of the string operations\<close>

lemma toUpperCase_append: "toUpperCase (xs @ ys) = toUpperCase xs @ toUpperCase ys"
  by (simp add: toUpperCase_def)

lemma toUpperCase_Cons: "toUpperCase (c # cs) = toUpperChar c @ toUpperCase cs"
  by (simp add: toUpperCase_def)

lemma toUpperCase_Nil: "toUpperCase [] = []"
  by (simp add: toUpperCase_def)

lemma toUpperCase_toUpperChar: "toUpperCase (toUpperChar c) = toUpperChar c"
proof -
  have S: "toUpperChar CHR ''S'' = ''S''" by (simp add: toUpperChar_def)
  show ?thesis
    by (auto simp add: toUpperCase_Cons toUpperCase_Nil S toUpperChar_def [of c] Let_def toUpperChar_def)
qed

lemma toUpperCase_idem: "toUpperCase (toUpperCase s) = toUpperCase s"
  by (induction s) (simp_all add: toUpperCase_Nil toUpperCase_Cons toUpperCase_append toUpperCase_toUpperChar)











lemma startMarker_toUpperCase: "startMarker (toUpperCase ty) = startMarker ty"
  by (simp add: startMarker_def toUpperCase_idem)

lemma endMarker_toUpperCase: "endMarker (toUpperCase ty) = endMarker ty"
  by (simp add: endMarker_def toUpperCase_idem)

lemma markersComplete_toUpperCase: "markersComplete (toUpperCase ty) text = markersComplete ty text"
  unfolding markersComplete_def startMarker_toUpperCase endMarker_toUpperCase ..

lemma indexOfAux_Some:
  "indexOfAux pat xs k = Some i \<Longrightarrow> k \<le> i \<and> i \<le> k + length xs \<and> prefix pat (drop (i - k) xs)"
proof (induction xs arbitrary: k)
  case Nil
  then show ?case by (simp split: if_splits)
next
  case (Cons c cs)
  show ?case
  proof (cases "prefix pat (c # cs)")
    case True
    with Cons.prems show ?thesis by simp
  next
    case False
    with Cons.prems have "indexOfAux pat cs (Suc k) = Some i" by simp
    from Cons.IH [OF this]
    have *: "Suc k \<le> i" "i \<le> Suc k + length cs" "prefix pat (drop (i - Suc k) cs)"
      by simp_all
    from * have "i - k = Suc (i - Suc k)" by arith
    with * show ?thesis by simp
  qed
qed

lemma indexOf_Some:
  assumes "indexOf text pat pos = Some i"
  shows "min pos (length text) \<le> i \<and> i \<le> length text \<and> prefix pat (drop i text)"
proof -
  let ?k = "min pos (length text)"
  from assms have "indexOfAux pat (drop ?k text) ?k = Some i"
    by (simp add: indexOf_def Let_def)
  from indexOfAux_Some [OF this]
  have *: "?k \<le> i" "i \<le> ?k + length (drop ?k text)" "prefix pat (drop (i - ?k) (drop ?k text))"
    by blast+
  from *(1) have "i - ?k + ?k = i" by arith
  then have "drop (i - ?k) (drop ?k text) = drop i text" by simp
  with *(3) have "prefix pat (drop i text)" by (simp only:)
  moreover from *(2) have "i \<le> length text" by simp
  ultimately show ?thesis using *(1) by blast
qed

section \<open>Properties of extractSection\<close>

lemma scanTypes_skip:
  "\<not> markersComplete ty text \<Longrightarrow> scanTypes (ty # rest) text = scanTypes rest text"
  by (simp add: markersComplete_def Let_def split: option.splits)

lemma scanTypes_hit:
  "markersComplete ty text \<Longrightarrow> \<exists>s. scanTypes (ty # rest) text = Some s \<and> type s = toLowerCase ty"
  by (auto simp add: markersComplete_def Let_def split: option.splits)

lemma scanTypes_None_iff:
  "scanTypes tys text = None \<longleftrightarrow> (\<forall>ty \<in> set tys. \<not> markersComplete ty text)"
proof (induction tys)
  case Nil
  show ?case by simp
next
  case (Cons ty tys)
  show ?case
  proof (cases "markersComplete ty text")
    case True
    from scanTypes_hit [OF True, of tys] True show ?thesis by auto
  next
    case False
    from scanTypes_skip [OF False, of tys] False Cons.IH show ?thesis by simp
  qed
qed

lemma scanTypes_Some:
  "scanTypes tys text = Some s \<Longrightarrow>
     \<exists>ty \<in> set tys. markersComplete ty text \<and> type s = toLowerCase ty"
proof (induction tys)
  case Nil
  then show ?case by simp
next
  case (Cons ty tys)
  show ?case
  proof (cases "markersComplete ty text")
    case True
    from scanTypes_hit [OF True, of tys] Cons.prems True show ?thesis by auto
  next
    case False
    from scanTypes_skip [OF False, of tys] Cons.prems have "scanTypes tys text = Some s" by simp
    from Cons.IH [OF this] show ?thesis by auto
  qed
qed

lemma scanTypes_first:
  "\<forall>ty \<in> set pre. \<not> markersComplete ty text \<Longrightarrow> markersComplete ty text \<Longrightarrow>
     \<exists>s. scanTypes (pre @ ty # rest) text = Some s \<and> type s = toLowerCase ty"
proof (induction pre)
  case Nil
  then show ?case using scanTypes_hit by simp
next
  case (Cons p pre)
  then have "scanTypes ((p # pre) @ ty # rest) text = scanTypes (pre @ ty # rest) text"
    using scanTypes_skip [of p "text" "pre @ ty # rest"] by simp
  with Cons show ?case by simp
qed

lemma markersComplete_verbatim:
  assumes "markersComplete ty text"
  shows "\<exists>i j. i + length (startMarker ty) \<le> j \<and> j \<le> length text \<and>
           prefix (startMarker ty) (drop i text) \<and> prefix (endMarker ty) (drop j text)"
proof -
  from assms obtain i where i: "indexOf text (startMarker ty) 0 = Some i"
    by (auto simp add: markersComplete_def split: option.splits)
  with assms obtain j where j: "indexOf text (endMarker ty) (i + length (startMarker ty)) = Some j"
    by (auto simp add: markersComplete_def)
  from indexOf_Some [OF i] have pi: "prefix (startMarker ty) (drop i text)" "i \<le> length text" by simp_all
  from prefix_length_le [OF pi(1)] have "i + length (startMarker ty) \<le> length text"
    using pi(2) by simp
  with indexOf_Some [OF j] have "i + length (startMarker ty) \<le> j" "j \<le> length text"
    "prefix (endMarker ty) (drop j text)" by simp_all
  with pi show ?thesis by blast
qed

lemma extractSection_Some:
  assumes "extractSection OutputType text = Some s"
  shows "\<exists>v \<in> snd ` set OutputType.
           markersComplete v text \<and> type s = toLowerCase (toUpperCase v)"
proof -
  from assms have "scanTypes (map (toUpperCase \<circ> snd) OutputType) text = Some s"
    by (simp add: extractSection_def)
  from scanTypes_Some [OF this] obtain ty where
    ty: "ty \<in> set (map (toUpperCase \<circ> snd) OutputType)" "markersComplete ty text"
        "type s = toLowerCase ty"
    by blast
  from ty(1) obtain v where v: "v \<in> snd ` set OutputType" "ty = toUpperCase v" by auto
  with ty show ?thesis
    by (auto simp add: markersComplete_toUpperCase)
qed

lemma extractSection_None_iff:
  "extractSection OutputType text = None \<longleftrightarrow>
     (\<forall>v \<in> snd ` set OutputType. \<not> markersComplete v text)"
  by (simp add: extractSection_def scanTypes_None_iff markersComplete_toUpperCase)

lemma extractSection_skip:
  assumes "\<not> markersComplete v text"
  shows "extractSection ((k, v) # OutputType) text = extractSection OutputType text"
proof -
  from assms have "\<not> markersComplete (toUpperCase v) text"
    by (simp add: markersComplete_toUpperCase)
  from scanTypes_skip [OF this] show ?thesis
    by (simp add: extractSection_def del: scanTypes.simps)
qed

text \<open>
  C3 (as amended). When the start marker of a type is in the text and its end marker
  is not behind it, the scan does not stop: the type is skipped and the scan goes on
  with the types enumerated after it, so a later type whose two markers are in the
  text is extracted in the same pass.
\<close>

theorem C3_incomplete_type_is_skipped:
  assumes "indexOf text (startMarker v) 0 = Some i"
    and "indexOf text (endMarker v) (i + length (startMarker v)) = None"
  shows "extractSection ((k, v) # OutputType) text = extractSection OutputType text \<and>
         ((\<exists>v' \<in> snd ` set OutputType. markersComplete v' text) \<longrightarrow>
            extractSection ((k, v) # OutputType) text \<noteq> None)"
proof -
  from assms have "\<not> markersComplete v text" by (simp add: markersComplete_def)
  then have "extractSection ((k, v) # OutputType) text = extractSection OutputType text"
    by (rule extractSection_skip)
  then show ?thesis by (simp add: extractSection_None_iff)
qed

theorem C3_incomplete_type_is_skipped_witness:
  "indexOf ''=====SQL=====x=====TEXT=====hi=====END TEXT====='' (startMarker ''sql'') 0 = Some 0 \<and>
   indexOf ''=====SQL=====x=====TEXT=====hi=====END TEXT====='' (endMarker ''sql'')
     (0 + length (startMarker ''sql'')) = None \<and>
   extractSection ((''SQL'', ''sql'') # [(''TEXT'', ''text'')])
     ''=====SQL=====x=====TEXT=====hi=====END TEXT====='' =
   extractSection [(''TEXT'', ''text'')] ''=====SQL=====x=====TEXT=====hi=====END TEXT====='' \<and>
   extractSection [(''TEXT'', ''text'')] ''=====SQL=====x=====TEXT=====hi=====END TEXT====='' =
     Some \<lparr>type = ''text'', content = ''hi''\<rparr>"
proof -
  have h1: "indexOf ''=====SQL=====x=====TEXT=====hi=====END TEXT====='' (startMarker ''sql'') 0 = Some 0"
    by code_simp
  have h2: "indexOf ''=====SQL=====x=====TEXT=====hi=====END TEXT====='' (endMarker ''sql'')
     (0 + length (startMarker ''sql'')) = None"
    by code_simp
  have h3: "extractSection [(''TEXT'', ''text'')] ''=====SQL=====x=====TEXT=====hi=====END TEXT====='' =
     Some \<lparr>type = ''text'', content = ''hi''\<rparr>"
    by code_simp
  from C3_incomplete_type_is_skipped [OF h1 h2, of "''SQL''" "[(''TEXT'', ''text'')]"] h1 h2 h3
  show ?thesis by blast
qed

theorem C3_scan_stops_counterexample:
  "extractSection OutputType_spec ''=====SQL=====x=====TEXT=====hi=====END TEXT====='' =
     Some \<lparr>type = ''text'', content = ''hi''\<rparr>"
  by code_simp

text \<open>
  C4 (as amended). Matching is exact on the whole marker, the type token included:
  a section is extracted only from a text that holds, letter for letter, the start
  marker and behind it the end marker written with the upper-cased name of a declared
  type. Only the spelling of the enumeration's value is normalised.
\<close>

theorem C4_markers_match_verbatim:
  assumes "extractSection OutputType text = Some section"
  shows "\<exists>v \<in> snd ` set OutputType. \<exists>i j.
           i + length (''====='' @ toUpperCase v @ ''====='') \<le> j \<and> j \<le> length text \<and>
           prefix (''====='' @ toUpperCase v @ ''====='') (drop i text) \<and>
           prefix (''=====END '' @ toUpperCase v @ ''====='') (drop j text)"
proof -
  from extractSection_Some [OF assms] obtain v where
    v: "v \<in> snd ` set OutputType" "markersComplete v text" by blast
  from markersComplete_verbatim [OF v(2)] v(1) show ?thesis
    unfolding startMarker_def endMarker_def by blast
qed

theorem C4_markers_match_verbatim_witness:
  "extractSection [(''SQL'', ''sql'')] ''=====SQL=====select 1=====END SQL====='' =
     Some \<lparr>type = ''sql'', content = ''select 1''\<rparr> \<and>
   (\<exists>v \<in> snd ` set [(''SQL'', ''sql'')]. \<exists>i j.
      i + length (''====='' @ toUpperCase v @ ''====='') \<le> j \<and>
      j \<le> length ''=====SQL=====select 1=====END SQL====='' \<and>
      prefix (''====='' @ toUpperCase v @ ''====='') (drop i ''=====SQL=====select 1=====END SQL====='') \<and>
      prefix (''=====END '' @ toUpperCase v @ ''====='') (drop j ''=====SQL=====select 1=====END SQL=====''))"
proof -
  have h: "extractSection [(''SQL'', ''sql'')] ''=====SQL=====select 1=====END SQL====='' =
     Some \<lparr>type = ''sql'', content = ''select 1''\<rparr>"
    by code_simp
  from C4_markers_match_verbatim [OF h] h show ?thesis by blast
qed

theorem C4_lower_case_markers_counterexample:
  "extractSection OutputType_spec ''=====sql=====select 1=====end sql====='' = None"
  by code_simp



text \<open>
  C9. \<open>extractSection\<close> answers on every enumeration and every text, with no
  failure among its results: either no declared type has both its markers in the
  text, and the answer is \<open>null\<close>, or the answer is a section of a declared type whose
  markers are both there. A text that stops after a start marker and some content,
  \<open>=====TEXT=====hello\<close>, gives \<open>null\<close>, and the read that carries it adds neither a
  chunk nor an SQL statement.
\<close>

theorem C9_unmatched_markers_give_no_section:
  "((extractSection OutputType text = None \<and>
       (\<forall>v \<in> snd ` set OutputType. \<not> markersComplete v text)) \<or>
    (\<exists>s v. extractSection OutputType text = Some s \<and> v \<in> snd ` set OutputType \<and>
       markersComplete v text \<and> type s = toLowerCase (toUpperCase v))) \<and>
   extractSection OutputType_spec ''=====TEXT=====hello'' = None \<and>
   sqlOfRead OutputType_spec ''=====TEXT=====hello'' = [] \<and>
   chunksOfRead OutputType_spec ''=====TEXT=====hello'' = []"
proof -
  have general: "(extractSection OutputType text = None \<and>
       (\<forall>v \<in> snd ` set OutputType. \<not> markersComplete v text)) \<or>
    (\<exists>s v. extractSection OutputType text = Some s \<and> v \<in> snd ` set OutputType \<and>
       markersComplete v text \<and> type s = toLowerCase (toUpperCase v))"
  proof (cases "extractSection OutputType text")
    case None
    then show ?thesis by (simp add: extractSection_None_iff)
  next
    case (Some s)
    from extractSection_Some [OF Some] Some show ?thesis by blast
  qed
  have hello: "extractSection OutputType_spec ''=====TEXT=====hello'' = None"
    by code_simp
  then have "sqlOfRead OutputType_spec ''=====TEXT=====hello'' = []"
    and "chunksOfRead OutputType_spec ''=====TEXT=====hello'' = []"
    by (simp_all add: sqlOfRead_def chunksOfRead_def)
  with general hello show ?thesis by blast
qed

theorem C9_unmatched_markers_give_no_section_witness:
  "indexOf ''=====TEXT=====hello'' (startMarker ''text'') 0 = Some 0 \<and>
   indexOf ''=====TEXT=====hello'' (endMarker ''text'') 14 = None \<and>
   \<not> markersComplete ''text'' ''=====TEXT=====hello'' \<and>
   extractSection OutputType_spec ''=====TEXT=====hello'' = None"
proof -
  have h1: "indexOf ''=====TEXT=====hello'' (startMarker ''text'') 0 = Some 0" by code_simp
  have h2: "indexOf ''=====TEXT=====hello'' (endMarker ''text'') 14 = None" by code_simp
  have mem: "''text'' \<in> snd ` set OutputType_spec" by (simp add: OutputType_spec_def)
  from C9_unmatched_markers_give_no_section [of OutputType_spec "''=====TEXT=====hello''"]
  have "extractSection OutputType_spec ''=====TEXT=====hello'' = None \<and>
        (\<forall>v \<in> snd ` set OutputType_spec. \<not> markersComplete v ''=====TEXT=====hello'')"
    by auto
  with mem h1 h2 show ?thesis by blast
qed





section \<open>Properties of the read loop\<close>

lemma handleMessage_None:
  "extractSection OutputType message = None \<Longrightarrow>
     handleMessage OutputType message e =
       e\<lparr>outputs := (if outputs e = [] then [\<lparr>version = 1, chunks = []\<rparr>] else outputs e)\<rparr>"
  by (simp add: handleMessage_def)

lemma handleMessage_sql:
  "extractSection OutputType message = Some s \<Longrightarrow> Some (type s) = OutputType_SQL OutputType \<Longrightarrow>
     handleMessage OutputType message e =
       e\<lparr>sqlQueries := sqlQueries e @ [content s],
          outputs := (if outputs e = [] then [\<lparr>version = 1, chunks = []\<rparr>] else outputs e)\<rparr>"
  by (simp add: handleMessage_def)

lemma handleMessage_chunk:
  "extractSection OutputType message = Some s \<Longrightarrow> Some (type s) \<noteq> OutputType_SQL OutputType \<Longrightarrow>
     handleMessage OutputType message e =
       e\<lparr>outputs :=
          (if outputs e = []
           then [\<lparr>version = 1,
                   chunks = [\<lparr>content_chunk = (if content s \<noteq> [] then content s else message),
                               type_chunk = type s\<rparr>]\<rparr>]
           else butlast (outputs e) @
                  [(last (outputs e))\<lparr>chunks := chunks (last (outputs e)) @
                     [\<lparr>content_chunk = (if content s \<noteq> [] then content s else message),
                       type_chunk = type s\<rparr>]\<rparr>])\<rparr>"
  by (simp add: handleMessage_def Let_def)

lemma handleMessage_sqlQueries:
  "sqlQueries (handleMessage OutputType message e) = sqlQueries e @ sqlOfRead OutputType message"
proof (cases "extractSection OutputType message")
  case None
  then show ?thesis by (simp add: handleMessage_None sqlOfRead_def)
next
  case (Some s)
  then show ?thesis
    by (cases "Some (type s) = OutputType_SQL OutputType")
       (simp_all add: handleMessage_sql handleMessage_chunk sqlOfRead_def)
qed

lemma handleMessage_outputs:
  "outputs (handleMessage OutputType message e) =
     (if outputs e = [] then [\<lparr>version = 1, chunks = chunksOfRead OutputType message\<rparr>]
      else butlast (outputs e) @
             [(last (outputs e))\<lparr>chunks := chunks (last (outputs e)) @ chunksOfRead OutputType message\<rparr>])"
proof (cases "extractSection OutputType message")
  case None
  then show ?thesis by (simp add: handleMessage_None chunksOfRead_def)
next
  case (Some s)
  then show ?thesis
    by (cases "Some (type s) = OutputType_SQL OutputType")
       (simp_all add: handleMessage_sql handleMessage_chunk chunksOfRead_def)
qed

lemma handleMessage_fields:
  "id_entry (handleMessage OutputType message e) = id_entry e \<and>
   createdAt (handleMessage OutputType message e) = createdAt e \<and>
   notebookId (handleMessage OutputType message e) = notebookId e \<and>
   userPrompt (handleMessage OutputType message e) = userPrompt e"
proof (cases "extractSection OutputType message")
  case None
  then show ?thesis by (simp add: handleMessage_None)
next
  case (Some s)
  then show ?thesis
    by (cases "Some (type s) = OutputType_SQL OutputType")
       (simp_all add: handleMessage_sql handleMessage_chunk)
qed

lemma handleMessage_outputs_not_empty: "outputs (handleMessage OutputType message e) \<noteq> []"
  by (simp add: handleMessage_outputs)


lemma handleMessage_allChunks:
  "allChunks (handleMessage OutputType message e) = allChunks e @ chunksOfRead OutputType message"
proof (cases "outputs e = []")
  case True
  then show ?thesis by (simp add: allChunks_def handleMessage_outputs)
next
  case False
  then have "concat (map chunks (outputs e)) =
      concat (map chunks (butlast (outputs e) @ [last (outputs e)]))" by simp
  then have "allChunks e = concat (map chunks (butlast (outputs e))) @ chunks (last (outputs e))"
    unfolding allChunks_def by (simp only: map_append concat_append list.map concat.simps append_Nil2)
  with False show ?thesis by (simp add: allChunks_def handleMessage_outputs)
qed


lemma handleReads_Nil: "handleReads OutputType [] e = e"
  by (simp add: handleReads_def)


lemma handleReads_Cons:
  "handleReads OutputType (m # ms) e = handleReads OutputType ms (handleMessage OutputType m e)"
  by (simp add: handleReads_def)


lemma handleReads_append:
  "handleReads OutputType (ms @ ms') e = handleReads OutputType ms' (handleReads OutputType ms e)"
  by (simp add: handleReads_def)


lemma handleReads_sqlQueries:
  "sqlQueries (handleReads OutputType ms e) = sqlQueries e @ concat (map (sqlOfRead OutputType) ms)"
  by (induction ms arbitrary: e) (simp_all add: handleReads_Nil handleReads_Cons handleMessage_sqlQueries)


lemma handleReads_allChunks:
  "allChunks (handleReads OutputType ms e) = allChunks e @ concat (map (chunksOfRead OutputType) ms)"
  by (induction ms arbitrary: e) (simp_all add: handleReads_Nil handleReads_Cons handleMessage_allChunks)


lemma handleReads_outputs_not_empty:
  "outputs e \<noteq> [] \<Longrightarrow>
     outputs (handleReads OutputType ms e) =
       butlast (outputs e) @
         [(last (outputs e))\<lparr>chunks := chunks (last (outputs e)) @ concat (map (chunksOfRead OutputType) ms)\<rparr>]"
proof (induction ms arbitrary: e)
  case Nil
  then show ?case by (simp add: handleReads_Nil)
next
  case (Cons m ms)
  let ?e = "handleMessage OutputType m e"
  from Cons.prems have o: "outputs ?e = butlast (outputs e) @
      [(last (outputs e))\<lparr>chunks := chunks (last (outputs e)) @ chunksOfRead OutputType m\<rparr>]"
    by (simp add: handleMessage_outputs)
  then have "outputs ?e \<noteq> []" by simp
  from Cons.IH [OF this] o show ?case by (simp add: handleReads_Cons)
qed


lemma handleReads_outputs_empty:
  assumes "outputs e = []" and "ms \<noteq> []"
  shows "outputs (handleReads OutputType ms e) =
           [\<lparr>version = 1, chunks = concat (map (chunksOfRead OutputType) ms)\<rparr>]"
proof -
  from assms(2) obtain m ms' where ms: "ms = m # ms'" by (cases ms) auto
  let ?e = "handleMessage OutputType m e"
  from assms(1) have o: "outputs ?e = [\<lparr>version = 1, chunks = chunksOfRead OutputType m\<rparr>]"
    by (simp add: handleMessage_outputs)
  then have "outputs ?e \<noteq> []" by simp
  from handleReads_outputs_not_empty [OF this, of OutputType ms'] o ms show ?thesis
    by (simp add: handleReads_Cons)
qed


lemma handleReads_fields:
  "id_entry (handleReads OutputType ms e) = id_entry e"
  "createdAt (handleReads OutputType ms e) = createdAt e"
  "notebookId (handleReads OutputType ms e) = notebookId e"
  "userPrompt (handleReads OutputType ms e) = userPrompt e"
  by (induction ms arbitrary: e) (simp_all add: handleReads_Nil handleReads_Cons handleMessage_fields)


lemma readLoop_Values:
  "localNotebookEntries \<noteq> [] \<Longrightarrow> notebookEntries st = localNotebookEntries \<Longrightarrow>
     readLoop OutputType (map Value ms) localNotebookEntries st =
       Returned (st\<lparr>notebookEntries := butlast localNotebookEntries @
                     [handleReads OutputType ms (last localNotebookEntries)],
                   isSendingMessage := False\<rparr>)"
proof (induction ms arbitrary: localNotebookEntries st)
  case Nil
  then show ?case by (simp add: handleReads_Nil)
next
  case (Cons m ms)
  let ?l = "butlast localNotebookEntries @ [handleMessage OutputType m (last localNotebookEntries)]"
  have "?l \<noteq> []" "notebookEntries (st\<lparr>notebookEntries := ?l\<rparr>) = ?l" by simp_all
  from Cons.IH [OF this] Cons.prems show ?case
    by (simp add: Let_def handleReads_Cons)
qed


lemma readLoop_Values_Rejected:
  "localNotebookEntries \<noteq> [] \<Longrightarrow> notebookEntries st = localNotebookEntries \<Longrightarrow>
     readLoop OutputType (map Value ms @ Rejected # reads) localNotebookEntries st =
       Threw (st\<lparr>notebookEntries := butlast localNotebookEntries @
                  [handleReads OutputType ms (last localNotebookEntries)]\<rparr>)"
proof (induction ms arbitrary: localNotebookEntries st)
  case Nil
  then show ?case by (simp add: handleReads_Nil)
next
  case (Cons m ms)
  let ?l = "butlast localNotebookEntries @ [handleMessage OutputType m (last localNotebookEntries)]"
  have "?l \<noteq> []" "notebookEntries (st\<lparr>notebookEntries := ?l\<rparr>) = ?l" by simp_all
  from Cons.IH [OF this] Cons.prems show ?case
    by (simp add: Let_def handleReads_Cons)
qed

lemma extractSection_first:
  assumes "\<forall>v' \<in> snd ` set pre. \<not> markersComplete v' text" and "markersComplete v text"
  shows "\<exists>s. extractSection (pre @ (k, v) # rest) text = Some s \<and>
           type s = toLowerCase (toUpperCase v)"
proof -
  from assms(1) have "\<forall>ty \<in> set (map (toUpperCase \<circ> snd) pre). \<not> markersComplete ty text"
    by (simp add: markersComplete_toUpperCase)
  moreover from assms(2) have "markersComplete (toUpperCase v) text"
    by (simp add: markersComplete_toUpperCase)
  ultimately have "\<exists>s. scanTypes (map (toUpperCase \<circ> snd) pre @ toUpperCase v #
      map (toUpperCase \<circ> snd) rest) text = Some s \<and> type s = toLowerCase (toUpperCase v)"
    by (rule scanTypes_first)
  then show ?thesis by (simp add: extractSection_def del: scanTypes.simps)
qed

text \<open>
  C2 (as amended). One extraction step emits at most one segment per read: the
  section of the first type in enumeration order whose two markers are in the text.
  Nothing is removed from the text and the scan is not repeated, so a read adds one
  SQL statement or one chunk when \<open>extractSection\<close> finds a section and nothing
  otherwise; further complete segments of the same read are not emitted.
\<close>

theorem C2_one_read_at_most_one_segment:
  "length (sqlQueries (handleMessage OutputType message e)) +
     length (allChunks (handleMessage OutputType message e)) =
   length (sqlQueries e) + length (allChunks e) +
     (case extractSection OutputType message of None \<Rightarrow> 0 | Some s \<Rightarrow> 1) \<and>
   ((\<forall>v' \<in> snd ` set pre. \<not> markersComplete v' message) \<and> markersComplete v message \<longrightarrow>
      (\<exists>s. extractSection (pre @ (k, v) # rest) message = Some s \<and>
         type s = toLowerCase (toUpperCase v)))"
proof -
  have "length (sqlOfRead OutputType message) + length (chunksOfRead OutputType message) =
      (case extractSection OutputType message of None \<Rightarrow> 0 | Some s \<Rightarrow> 1)"
    by (simp add: sqlOfRead_def chunksOfRead_def split: option.splits)
  then have "length (sqlQueries (handleMessage OutputType message e)) +
     length (allChunks (handleMessage OutputType message e)) =
   length (sqlQueries e) + length (allChunks e) +
     (case extractSection OutputType message of None \<Rightarrow> 0 | Some s \<Rightarrow> 1)"
    by (simp add: handleMessage_sqlQueries handleMessage_allChunks)
  moreover have "(\<forall>v' \<in> snd ` set pre. \<not> markersComplete v' message) \<and> markersComplete v message \<longrightarrow>
      (\<exists>s. extractSection (pre @ (k, v) # rest) message = Some s \<and>
         type s = toLowerCase (toUpperCase v))"
    using extractSection_first by blast
  ultimately show ?thesis by blast
qed

theorem C2_one_read_at_most_one_segment_witness:
  "markersComplete ''sql'' ''=====SQL=====a=====END SQL==========TEXT=====b=====END TEXT====='' \<and>
   markersComplete ''text'' ''=====SQL=====a=====END SQL==========TEXT=====b=====END TEXT====='' \<and>
   extractSection OutputType_spec ''=====SQL=====a=====END SQL==========TEXT=====b=====END TEXT====='' =
     Some \<lparr>type = ''sql'', content = ''a''\<rparr> \<and>
   length (sqlQueries (handleMessage OutputType_spec
       ''=====SQL=====a=====END SQL==========TEXT=====b=====END TEXT====='' newEntry)) +
     length (allChunks (handleMessage OutputType_spec
       ''=====SQL=====a=====END SQL==========TEXT=====b=====END TEXT====='' newEntry)) = 1 \<and>
   (\<exists>s. extractSection ([] @ (''SQL'', ''sql'') # [(''TEXT'', ''text'')])
      ''=====SQL=====a=====END SQL==========TEXT=====b=====END TEXT====='' = Some s \<and>
      type s = toLowerCase (toUpperCase ''sql''))"
proof -
  let ?m = "''=====SQL=====a=====END SQL==========TEXT=====b=====END TEXT=====''"
  have h1: "markersComplete ''sql'' ?m" by code_simp
  have h2: "markersComplete ''text'' ?m" by code_simp
  have h3: "extractSection OutputType_spec ?m = Some \<lparr>type = ''sql'', content = ''a''\<rparr>"
    by code_simp
  have h4: "length (sqlQueries newEntry) + length (allChunks newEntry) = 0"
    by (simp add: newEntry_def allChunks_def)
  note C2 = C2_one_read_at_most_one_segment [of OutputType_spec ?m newEntry "[]" "''sql''" "''SQL''"
      "[(''TEXT'', ''text'')]"]
  from C2 h3 h4
  have "length (sqlQueries (handleMessage OutputType_spec ?m newEntry)) +
     length (allChunks (handleMessage OutputType_spec ?m newEntry)) = 1"
    by simp
  moreover from C2 h1
  have "\<exists>s. extractSection ([] @ (''SQL'', ''sql'') # [(''TEXT'', ''text'')]) ?m = Some s \<and>
          type s = toLowerCase (toUpperCase ''sql'')"
    by simp
  ultimately show ?thesis using h1 h2 h3 by blast
qed

theorem C2_two_segments_one_read_counterexample:
  "markersComplete ''text'' ''=====SQL=====a=====END SQL==========TEXT=====b=====END TEXT====='' \<and>
   handleMessage OutputType_spec
     ''=====SQL=====a=====END SQL==========TEXT=====b=====END TEXT====='' newEntry =
   newEntry\<lparr>sqlQueries := [''a''], outputs := [\<lparr>version = 1, chunks = []\<rparr>]\<rparr>"
  by code_simp

lemma outputsExtend_refl: "outputsExtend os os"
  by (induction os) simp_all

lemma outputsExtend_trans:
  "outputsExtend xs ys \<Longrightarrow> outputsExtend ys zs \<Longrightarrow> outputsExtend xs zs"
proof (induction xs ys arbitrary: zs rule: outputsExtend.induct)
  case (1 os')
  show ?case by simp
next
  case (2 x os)
  then show ?case by simp
next
  case (3 x os y os')
  then show ?case by (cases zs) (auto intro: prefix_order.trans)
qed

lemma outputsExtend_last:
  "os \<noteq> [] \<Longrightarrow>
     outputsExtend os (butlast os @ [(last os)\<lparr>chunks := chunks (last os) @ cs\<rparr>])"
  by (induction os) (simp_all add: outputsExtend_refl)

lemma entryExtends_refl: "entryExtends e e"
  by (simp add: entryExtends_def outputsExtend_refl)

lemma entryExtends_trans:
  "entryExtends a b \<Longrightarrow> entryExtends b c \<Longrightarrow> entryExtends a c"
  unfolding entryExtends_def
  by (auto intro: outputsExtend_trans prefix_order.trans)

lemma entryExtends_handleMessage: "entryExtends e (handleMessage OutputType message e)"
proof -
  have "outputsExtend (outputs e) (outputs (handleMessage OutputType message e))"
    by (cases "outputs e = []") (simp_all add: handleMessage_outputs outputsExtend_last)
  then show ?thesis
    by (simp add: entryExtends_def handleMessage_fields handleMessage_sqlQueries)
qed

lemma entryExtends_handleReads: "entryExtends e (handleReads OutputType ms e)"
proof (induction ms arbitrary: e)
  case Nil
  show ?case by (simp add: handleReads_Nil entryExtends_refl)
next
  case (Cons m ms)
  from entryExtends_handleMessage Cons.IH show ?case
    unfolding handleReads_Cons by (rule entryExtends_trans)
qed

text \<open>
  C8. The entry only grows while the reads of a stream are handled: a read leaves
  the identifying fields alone, keeps the SQL statements as a prefix of the new ones,
  and keeps every output with its version and its chunks as a prefix of its new
  chunks. So the entry after any number of reads is extended by the entry after more
  reads: nothing is removed or reordered. Two reads that each contribute one chunk give,
  on a new entry, the single output of version 1 with these two chunks in the order
  of the reads.
\<close>

theorem C8_entry_append_only:
  "entryExtends e (handleMessage OutputType message e) \<and>
   entryExtends (handleReads OutputType ms e) (handleReads OutputType (ms @ ms') e) \<and>
   (outputs e = [] \<and> chunksOfRead OutputType m1 = [c1] \<and> chunksOfRead OutputType m2 = [c2] \<longrightarrow>
      outputs (handleReads OutputType [m1, m2] e) = [\<lparr>version = 1, chunks = [c1, c2]\<rparr>])"
proof -
  have "entryExtends (handleReads OutputType ms e) (handleReads OutputType (ms @ ms') e)"
    unfolding handleReads_append by (rule entryExtends_handleReads)
  moreover have "outputs e = [] \<and> chunksOfRead OutputType m1 = [c1] \<and>
      chunksOfRead OutputType m2 = [c2] \<longrightarrow>
      outputs (handleReads OutputType [m1, m2] e) = [\<lparr>version = 1, chunks = [c1, c2]\<rparr>]"
    by (simp add: handleReads_outputs_empty)
  ultimately show ?thesis using entryExtends_handleMessage by blast
qed

theorem C8_entry_append_only_witness:
  "outputs newEntry = [] \<and>
   chunksOfRead OutputType_spec ''=====TEXT=====first=====END TEXT====='' =
     [\<lparr>content_chunk = ''first'', type_chunk = ''text''\<rparr>] \<and>
   chunksOfRead OutputType_spec ''=====TEXT=====second=====END TEXT====='' =
     [\<lparr>content_chunk = ''second'', type_chunk = ''text''\<rparr>] \<and>
   outputs (handleReads OutputType_spec
      [''=====TEXT=====first=====END TEXT====='', ''=====TEXT=====second=====END TEXT====='']
      newEntry) =
     [\<lparr>version = 1, chunks = [\<lparr>content_chunk = ''first'', type_chunk = ''text''\<rparr>,
                                \<lparr>content_chunk = ''second'', type_chunk = ''text''\<rparr>]\<rparr>] \<and>
   entryExtends
     (handleReads OutputType_spec [''=====TEXT=====first=====END TEXT=====''] newEntry)
     (handleReads OutputType_spec
        ([''=====TEXT=====first=====END TEXT=====''] @ [''=====TEXT=====second=====END TEXT=====''])
        newEntry) \<and>
   finalState (sendMessage OutputType_spec ''p1''
      (streaming [Value ''=====TEXT=====first=====END TEXT====='',
                  Value ''=====TEXT=====second=====END TEXT====='']) ui0) =
     ui0\<lparr>notebookEntries := [entry0,
            newEntry\<lparr>outputs := [\<lparr>version = 1,
              chunks = [\<lparr>content_chunk = ''first'', type_chunk = ''text''\<rparr>,
                        \<lparr>content_chunk = ''second'', type_chunk = ''text''\<rparr>]\<rparr>]\<rparr>],
          userSearch := []\<rparr>"
proof -
  let ?m1 = "''=====TEXT=====first=====END TEXT=====''"
  let ?m2 = "''=====TEXT=====second=====END TEXT=====''"
  have h0: "outputs newEntry = []" by (simp add: newEntry_def)
  have h1: "chunksOfRead OutputType_spec ?m1 = [\<lparr>content_chunk = ''first'', type_chunk = ''text''\<rparr>]"
    by code_simp
  have h2: "chunksOfRead OutputType_spec ?m2 = [\<lparr>content_chunk = ''second'', type_chunk = ''text''\<rparr>]"
    by code_simp
  have h3: "finalState (sendMessage OutputType_spec ''p1'' (streaming [Value ?m1, Value ?m2]) ui0) =
     ui0\<lparr>notebookEntries := [entry0,
            newEntry\<lparr>outputs := [\<lparr>version = 1,
              chunks = [\<lparr>content_chunk = ''first'', type_chunk = ''text''\<rparr>,
                        \<lparr>content_chunk = ''second'', type_chunk = ''text''\<rparr>]\<rparr>]\<rparr>],
          userSearch := []\<rparr>"
    by code_simp
  note C8 = C8_entry_append_only [of newEntry OutputType_spec ?m1 "[?m1]" "[?m2]" ?m1
      "\<lparr>content_chunk = ''first'', type_chunk = ''text''\<rparr>" ?m2
      "\<lparr>content_chunk = ''second'', type_chunk = ''text''\<rparr>"]
  from C8 h0 h1 h2 h3 show ?thesis by blast
qed

lemma chunksOfRead_not_sql:
  "c \<in> set (chunksOfRead OutputType message) \<Longrightarrow> Some (type_chunk c) \<noteq> OutputType_SQL OutputType"
  by (auto simp add: chunksOfRead_def split: option.splits if_splits)

text \<open>
  C7 (as amended). A section is routed by its type alone. A section whose type is
  \<open>OutputType.SQL\<close> adds its content at the end of \<open>sqlQueries\<close> and no chunk; any
  other section leaves \<open>sqlQueries\<close> as it is and adds one chunk of its type at the
  end of the last output. The content of that chunk is the content of the section,
  unless this content is empty: then the chunk holds the whole text of the read,
  markers included (\<open>section.content || message\<close>). Over the reads of a stream,
  whether the loop ends with the stream or a read is rejected, the SQL statements
  added are those of the SQL sections, the chunks added are those of the other
  sections, and no added chunk has the type \<open>OutputType.SQL\<close>.
\<close>

theorem C7_sections_routed_by_type:
  assumes "localNotebookEntries \<noteq> []" and "notebookEntries st = localNotebookEntries"
  shows
  "(extractSection OutputType message = Some section \<longrightarrow>
      (if Some (type section) = OutputType_SQL OutputType
       then sqlQueries (handleMessage OutputType message e) = sqlQueries e @ [content section] \<and>
            allChunks (handleMessage OutputType message e) = allChunks e \<and>
            outputs (handleMessage OutputType message e) =
              (if outputs e = [] then [\<lparr>version = 1, chunks = []\<rparr>] else outputs e)
       else sqlQueries (handleMessage OutputType message e) = sqlQueries e \<and>
            butlast (outputs (handleMessage OutputType message e)) = butlast (outputs e) \<and>
            chunks (last (outputs (handleMessage OutputType message e))) =
              (if outputs e = [] then [] else chunks (last (outputs e))) @
              [\<lparr>content_chunk = (if content section \<noteq> [] then content section else message),
                type_chunk = type section\<rparr>])) \<and>
   (\<exists>st'. readLoop OutputType (map Value ms) localNotebookEntries st = Returned st' \<and>
      butlast (notebookEntries st') = butlast localNotebookEntries \<and>
      sqlQueries (last (notebookEntries st')) =
        sqlQueries (last localNotebookEntries) @ concat (map (sqlOfRead OutputType) ms) \<and>
      allChunks (last (notebookEntries st')) =
        allChunks (last localNotebookEntries) @ concat (map (chunksOfRead OutputType) ms)) \<and>
   (\<exists>st'. readLoop OutputType (map Value ms @ Rejected # reads) localNotebookEntries st =
        Threw st' \<and>
      butlast (notebookEntries st') = butlast localNotebookEntries \<and>
      sqlQueries (last (notebookEntries st')) =
        sqlQueries (last localNotebookEntries) @ concat (map (sqlOfRead OutputType) ms) \<and>
      allChunks (last (notebookEntries st')) =
        allChunks (last localNotebookEntries) @ concat (map (chunksOfRead OutputType) ms)) \<and>
   (\<forall>c \<in> set (concat (map (chunksOfRead OutputType) ms)).
      Some (type_chunk c) \<noteq> OutputType_SQL OutputType)"
proof -
  have one: "extractSection OutputType message = Some section \<longrightarrow>
      (if Some (type section) = OutputType_SQL OutputType
       then sqlQueries (handleMessage OutputType message e) = sqlQueries e @ [content section] \<and>
            allChunks (handleMessage OutputType message e) = allChunks e \<and>
            outputs (handleMessage OutputType message e) =
              (if outputs e = [] then [\<lparr>version = 1, chunks = []\<rparr>] else outputs e)
       else sqlQueries (handleMessage OutputType message e) = sqlQueries e \<and>
            butlast (outputs (handleMessage OutputType message e)) = butlast (outputs e) \<and>
            chunks (last (outputs (handleMessage OutputType message e))) =
              (if outputs e = [] then [] else chunks (last (outputs e))) @
              [\<lparr>content_chunk = (if content section \<noteq> [] then content section else message),
                type_chunk = type section\<rparr>])"
  proof
    assume s: "extractSection OutputType message = Some section"
    show "if Some (type section) = OutputType_SQL OutputType
       then sqlQueries (handleMessage OutputType message e) = sqlQueries e @ [content section] \<and>
            allChunks (handleMessage OutputType message e) = allChunks e \<and>
            outputs (handleMessage OutputType message e) =
              (if outputs e = [] then [\<lparr>version = 1, chunks = []\<rparr>] else outputs e)
       else sqlQueries (handleMessage OutputType message e) = sqlQueries e \<and>
            butlast (outputs (handleMessage OutputType message e)) = butlast (outputs e) \<and>
            chunks (last (outputs (handleMessage OutputType message e))) =
              (if outputs e = [] then [] else chunks (last (outputs e))) @
              [\<lparr>content_chunk = (if content section \<noteq> [] then content section else message),
                type_chunk = type section\<rparr>]"
    proof (cases "Some (type section) = OutputType_SQL OutputType")
      case True
      with s have "sqlOfRead OutputType message = [content section]"
        and "chunksOfRead OutputType message = []"
        by (simp_all add: sqlOfRead_def chunksOfRead_def)
      with True show ?thesis
        by (simp add: handleMessage_sqlQueries handleMessage_allChunks handleMessage_outputs)
    next
      case False
      with s have "sqlOfRead OutputType message = []"
        and "chunksOfRead OutputType message =
          [\<lparr>content_chunk = (if content section \<noteq> [] then content section else message),
            type_chunk = type section\<rparr>]"
        by (simp_all add: sqlOfRead_def chunksOfRead_def)
      with False show ?thesis
        by (simp add: handleMessage_sqlQueries handleMessage_outputs)
    qed
  qed
  let ?l = "butlast localNotebookEntries @ [handleReads OutputType ms (last localNotebookEntries)]"
  have l: "butlast ?l = butlast localNotebookEntries"
    "last ?l = handleReads OutputType ms (last localNotebookEntries)"
    by simp_all
  from readLoop_Values [OF assms]
  have "readLoop OutputType (map Value ms) localNotebookEntries st =
      Returned (st\<lparr>notebookEntries := ?l, isSendingMessage := False\<rparr>)" .
  moreover have "notebookEntries (st\<lparr>notebookEntries := ?l, isSendingMessage := False\<rparr>) = ?l"
    by simp
  ultimately have finished:
    "\<exists>st'. readLoop OutputType (map Value ms) localNotebookEntries st = Returned st' \<and>
      butlast (notebookEntries st') = butlast localNotebookEntries \<and>
      sqlQueries (last (notebookEntries st')) =
        sqlQueries (last localNotebookEntries) @ concat (map (sqlOfRead OutputType) ms) \<and>
      allChunks (last (notebookEntries st')) =
        allChunks (last localNotebookEntries) @ concat (map (chunksOfRead OutputType) ms)"
    using l by (simp add: handleReads_sqlQueries handleReads_allChunks)
  from readLoop_Values_Rejected [OF assms]
  have "readLoop OutputType (map Value ms @ Rejected # reads) localNotebookEntries st =
      Threw (st\<lparr>notebookEntries := ?l\<rparr>)" .
  moreover have "notebookEntries (st\<lparr>notebookEntries := ?l\<rparr>) = ?l" by simp
  ultimately have rejected:
    "\<exists>st'. readLoop OutputType (map Value ms @ Rejected # reads) localNotebookEntries st =
        Threw st' \<and>
      butlast (notebookEntries st') = butlast localNotebookEntries \<and>
      sqlQueries (last (notebookEntries st')) =
        sqlQueries (last localNotebookEntries) @ concat (map (sqlOfRead OutputType) ms) \<and>
      allChunks (last (notebookEntries st')) =
        allChunks (last localNotebookEntries) @ concat (map (chunksOfRead OutputType) ms)"
    using l by (simp add: handleReads_sqlQueries handleReads_allChunks)
  have "\<forall>c \<in> set (concat (map (chunksOfRead OutputType) ms)).
      Some (type_chunk c) \<noteq> OutputType_SQL OutputType"
    using chunksOfRead_not_sql by auto
  with one finished rejected show ?thesis by blast
qed

theorem C7_sections_routed_by_type_witness:
  "[entry0, newEntry] \<noteq> [] \<and>
   notebookEntries (ui0\<lparr>notebookEntries := [entry0, newEntry]\<rparr>) = [entry0, newEntry] \<and>
   extractSection OutputType_spec ''=====SQL=====select 1=====END SQL====='' =
     Some \<lparr>type = ''sql'', content = ''select 1''\<rparr> \<and>
   Some (type \<lparr>type = ''sql'', content = ''select 1''\<rparr>) = OutputType_SQL OutputType_spec \<and>
   sqlQueries (handleMessage OutputType_spec ''=====SQL=====select 1=====END SQL====='' entry0) =
     sqlQueries entry0 @ [''select 1''] \<and>
   allChunks (handleMessage OutputType_spec ''=====SQL=====select 1=====END SQL====='' entry0) =
     allChunks entry0 \<and>
   sqlQueries (last (notebookEntries (finalState (readLoop OutputType_spec
      (map Value [''=====SQL=====select 1=====END SQL====='',
                  ''=====TABLE=====[]=====END TABLE=====''])
      [entry0, newEntry] (ui0\<lparr>notebookEntries := [entry0, newEntry]\<rparr>))))) = [''select 1''] \<and>
   allChunks (last (notebookEntries (finalState (readLoop OutputType_spec
      (map Value [''=====SQL=====select 1=====END SQL====='',
                  ''=====TABLE=====[]=====END TABLE=====''])
      [entry0, newEntry] (ui0\<lparr>notebookEntries := [entry0, newEntry]\<rparr>))))) =
     [\<lparr>content_chunk = ''[]'', type_chunk = ''table''\<rparr>] \<and>
   finalState (sendMessage OutputType_spec ''p1''
      (streaming [Value ''=====SQL=====select 1=====END SQL====='',
                  Value ''=====TABLE=====[]=====END TABLE====='']) ui0) =
     ui0\<lparr>notebookEntries := [entry0,
            newEntry\<lparr>sqlQueries := [''select 1''],
              outputs := [\<lparr>version = 1,
                chunks = [\<lparr>content_chunk = ''[]'', type_chunk = ''table''\<rparr>]\<rparr>]\<rparr>],
          userSearch := []\<rparr>"
proof -
  let ?q = "''=====SQL=====select 1=====END SQL=====''"
  let ?t = "''=====TABLE=====[]=====END TABLE=====''"
  let ?st = "ui0\<lparr>notebookEntries := [entry0, newEntry]\<rparr>"
  have g1: "[entry0, newEntry] \<noteq> []" by simp
  have g2: "notebookEntries ?st = [entry0, newEntry]" by simp
  have h1: "extractSection OutputType_spec ?q = Some \<lparr>type = ''sql'', content = ''select 1''\<rparr>"
    by code_simp
  have h2: "Some (type \<lparr>type = ''sql'', content = ''select 1''\<rparr>) = OutputType_SQL OutputType_spec"
    by code_simp
  have h3: "concat (map (sqlOfRead OutputType_spec) [?q, ?t]) = [''select 1'']" by code_simp
  have h4: "concat (map (chunksOfRead OutputType_spec) [?q, ?t]) =
      [\<lparr>content_chunk = ''[]'', type_chunk = ''table''\<rparr>]" by code_simp
  have h5: "sqlQueries (last [entry0, newEntry]) = []" "allChunks (last [entry0, newEntry]) = []"
    by (simp_all add: newEntry_def allChunks_def)
  have h6: "finalState (sendMessage OutputType_spec ''p1'' (streaming [Value ?q, Value ?t]) ui0) =
     ui0\<lparr>notebookEntries := [entry0,
            newEntry\<lparr>sqlQueries := [''select 1''],
              outputs := [\<lparr>version = 1,
                chunks = [\<lparr>content_chunk = ''[]'', type_chunk = ''table''\<rparr>]\<rparr>]\<rparr>],
          userSearch := []\<rparr>"
    by code_simp
  note C7 = C7_sections_routed_by_type [OF g1 g2, where OutputType = OutputType_spec
      and message = ?q and ?section = "\<lparr>type = ''sql'', content = ''select 1''\<rparr>"
      and e = entry0 and ms = "[?q, ?t]" and reads = "[]"]
  from C7 h1 h2
  have a: "sqlQueries (handleMessage OutputType_spec ?q entry0) = sqlQueries entry0 @ [''select 1'']"
    and b: "allChunks (handleMessage OutputType_spec ?q entry0) = allChunks entry0"
    by simp_all
  from C7 obtain st' where
    st': "readLoop OutputType_spec (map Value [?q, ?t]) [entry0, newEntry] ?st = Returned st'"
      "sqlQueries (last (notebookEntries st')) =
         sqlQueries (last [entry0, newEntry]) @ concat (map (sqlOfRead OutputType_spec) [?q, ?t])"
      "allChunks (last (notebookEntries st')) =
         allChunks (last [entry0, newEntry]) @ concat (map (chunksOfRead OutputType_spec) [?q, ?t])"
    by blast
  from st'(2,3) h3 h4 h5 have "sqlQueries (last (notebookEntries st')) = [''select 1'']"
    and "allChunks (last (notebookEntries st')) = [\<lparr>content_chunk = ''[]'', type_chunk = ''table''\<rparr>]"
    by simp_all
  with st'(1) have c: "sqlQueries (last (notebookEntries (finalState (readLoop OutputType_spec
      (map Value [?q, ?t]) [entry0, newEntry] ?st)))) = [''select 1'']"
    and d: "allChunks (last (notebookEntries (finalState (readLoop OutputType_spec
      (map Value [?q, ?t]) [entry0, newEntry] ?st)))) =
      [\<lparr>content_chunk = ''[]'', type_chunk = ''table''\<rparr>]"
    by simp_all
  from g1 g2 h1 h2 a b c d h6 show ?thesis by blast
qed

theorem C7_empty_content_counterexample:
  "extractSection OutputType_spec ''=====TEXT===== =====END TEXT====='' =
     Some \<lparr>type = ''text'', content = []\<rparr> \<and>
   finalState (sendMessage OutputType_spec ''p1''
      (streaming [Value ''=====TEXT===== =====END TEXT====='']) ui0) =
     ui0\<lparr>notebookEntries := [entry0,
            newEntry\<lparr>outputs := [\<lparr>version = 1,
              chunks = [\<lparr>content_chunk = ''=====TEXT===== =====END TEXT====='',
                        type_chunk = ''text''\<rparr>]\<rparr>]\<rparr>],
          userSearch := []\<rparr>"
  by code_simp

text \<open>
  C5 (as amended). On an entry created without outputs, the outputs list is
  non-empty if and only if at least one read has been handled: the single output of
  version 1 is created by the first read, whatever that read holds, and it collects
  the chunks of all reads. A stream that closes before any read leaves the entry as
  it was created (no SQL statement, no output); a stream whose reads contribute no
  chunk, as when all its segments are of the SQL type, leaves the one output with an
  empty list of chunks.
\<close>

theorem C5_output_created_on_first_read:
  assumes "outputs e = []"
  shows "(outputs (handleReads OutputType ms e) = [] \<longleftrightarrow> ms = []) \<and>
         (ms = [] \<longrightarrow> handleReads OutputType ms e = e) \<and>
         (ms \<noteq> [] \<longrightarrow> outputs (handleReads OutputType ms e) =
            [\<lparr>version = 1, chunks = concat (map (chunksOfRead OutputType) ms)\<rparr>]) \<and>
         (ms \<noteq> [] \<and> (\<forall>m \<in> set ms. chunksOfRead OutputType m = []) \<longrightarrow>
            outputs (handleReads OutputType ms e) = [\<lparr>version = 1, chunks = []\<rparr>]) \<and>
         sqlQueries (handleReads OutputType ms e) =
           sqlQueries e @ concat (map (sqlOfRead OutputType) ms)"
proof (cases "ms = []")
  case True
  with assms show ?thesis by (simp add: handleReads_Nil)
next
  case False
  from handleReads_outputs_empty [OF assms False]
  have o: "outputs (handleReads OutputType ms e) =
      [\<lparr>version = 1, chunks = concat (map (chunksOfRead OutputType) ms)\<rparr>]" .
  have "(\<forall>m \<in> set ms. chunksOfRead OutputType m = []) \<longrightarrow>
      concat (map (chunksOfRead OutputType) ms) = []"
    by simp
  with o False show ?thesis by (simp add: handleReads_sqlQueries)
qed

theorem C5_output_created_on_first_read_witness:
  "outputs newEntry = [] \<and>
   chunksOfRead OutputType_spec ''=====SQL=====select 1=====END SQL====='' = [] \<and>
   sqlOfRead OutputType_spec ''=====SQL=====select 1=====END SQL====='' = [''select 1''] \<and>
   outputs (handleReads OutputType_spec [''=====SQL=====select 1=====END SQL=====''] newEntry) =
     [\<lparr>version = 1, chunks = []\<rparr>] \<and>
   sqlQueries (handleReads OutputType_spec [''=====SQL=====select 1=====END SQL=====''] newEntry) =
     [''select 1''] \<and>
   handleReads OutputType_spec [] newEntry = newEntry \<and>
   finalState (sendMessage OutputType_spec ''p1'' (streaming []) ui0) =
     ui0\<lparr>notebookEntries := [entry0, newEntry], userSearch := []\<rparr>"
proof -
  let ?q = "''=====SQL=====select 1=====END SQL=====''"
  have h0: "outputs newEntry = []" and h0': "sqlQueries newEntry = []"
    by (simp_all add: newEntry_def)
  have h1: "chunksOfRead OutputType_spec ?q = []" by code_simp
  have h2: "sqlOfRead OutputType_spec ?q = [''select 1'']" by code_simp
  have h3: "finalState (sendMessage OutputType_spec ''p1'' (streaming []) ui0) =
     ui0\<lparr>notebookEntries := [entry0, newEntry], userSearch := []\<rparr>"
    by code_simp
  from C5_output_created_on_first_read [OF h0, of OutputType_spec "[?q]"] h1 h2 h0'
  have a: "outputs (handleReads OutputType_spec [?q] newEntry) = [\<lparr>version = 1, chunks = []\<rparr>]"
    and b: "sqlQueries (handleReads OutputType_spec [?q] newEntry) = [''select 1'']"
    by simp_all
  from C5_output_created_on_first_read [OF h0, of OutputType_spec "[]"]
  have c: "handleReads OutputType_spec [] newEntry = newEntry" by simp
  from h0 h1 h2 h3 a b c show ?thesis by blast
qed

theorem C5_sql_only_stream_counterexample:
  "chunksOfRead OutputType_spec ''=====SQL=====select 1=====END SQL====='' = [] \<and>
   finalState (sendMessage OutputType_spec ''p1''
      (streaming [Value ''=====SQL=====select 1=====END SQL====='']) ui0) =
     ui0\<lparr>notebookEntries := [entry0,
            newEntry\<lparr>sqlQueries := [''select 1''], outputs := [\<lparr>version = 1, chunks = []\<rparr>]\<rparr>],
          userSearch := []\<rparr>"
  by code_simp

text \<open>
  C1 (as amended). Every read is decoded and scanned on its own, and nothing of a
  read is kept for the next one: what a stream of reads adds to the last entry is
  what each read alone contributes, one after the other. A segment is therefore
  extracted only when its start marker and its end marker arrive in the same read:
  the read \<open>=====SQL=====select 1=====END SQL=====\<close> contributes the one SQL statement
  \<open>select 1\<close>, while the reads \<open>=====SQL==\<close> and \<open>===select 1=====END SQL=====\<close>
  contribute nothing.
\<close>

theorem C1_each_read_scanned_alone:
  assumes "localNotebookEntries \<noteq> []" and "notebookEntries st = localNotebookEntries"
  shows "(\<exists>st'. readLoop OutputType (map Value ms) localNotebookEntries st = Returned st' \<and>
            butlast (notebookEntries st') = butlast localNotebookEntries \<and>
            sqlQueries (last (notebookEntries st')) =
              sqlQueries (last localNotebookEntries) @ concat (map (sqlOfRead OutputType) ms) \<and>
            allChunks (last (notebookEntries st')) =
              allChunks (last localNotebookEntries) @ concat (map (chunksOfRead OutputType) ms)) \<and>
         sqlOfRead OutputType_spec ''=====SQL=====select 1=====END SQL====='' = [''select 1''] \<and>
         sqlOfRead OutputType_spec ''=====SQL=='' = [] \<and>
         chunksOfRead OutputType_spec ''=====SQL=='' = [] \<and>
         sqlOfRead OutputType_spec ''===select 1=====END SQL====='' = [] \<and>
         chunksOfRead OutputType_spec ''===select 1=====END SQL====='' = []"
proof -
  let ?st = "st\<lparr>notebookEntries := butlast localNotebookEntries @
                 [handleReads OutputType ms (last localNotebookEntries)],
               isSendingMessage := False\<rparr>"
  from readLoop_Values [OF assms]
  have "readLoop OutputType (map Value ms) localNotebookEntries st = Returned ?st" .
  moreover have "butlast (notebookEntries ?st) = butlast localNotebookEntries"
    and "last (notebookEntries ?st) = handleReads OutputType ms (last localNotebookEntries)"
    by simp_all
  ultimately have general:
    "\<exists>st'. readLoop OutputType (map Value ms) localNotebookEntries st = Returned st' \<and>
            butlast (notebookEntries st') = butlast localNotebookEntries \<and>
            sqlQueries (last (notebookEntries st')) =
              sqlQueries (last localNotebookEntries) @ concat (map (sqlOfRead OutputType) ms) \<and>
            allChunks (last (notebookEntries st')) =
              allChunks (last localNotebookEntries) @ concat (map (chunksOfRead OutputType) ms)"
    by (simp add: handleReads_sqlQueries handleReads_allChunks)
  have "sqlOfRead OutputType_spec ''=====SQL=====select 1=====END SQL====='' = [''select 1'']"
    and "sqlOfRead OutputType_spec ''=====SQL=='' = []"
    and "chunksOfRead OutputType_spec ''=====SQL=='' = []"
    and "sqlOfRead OutputType_spec ''===select 1=====END SQL====='' = []"
    and "chunksOfRead OutputType_spec ''===select 1=====END SQL====='' = []"
    by code_simp+
  with general show ?thesis by blast
qed

theorem C1_each_read_scanned_alone_witness:
  "[entry0, newEntry] \<noteq> [] \<and>
   notebookEntries (ui0\<lparr>notebookEntries := [entry0, newEntry]\<rparr>) = [entry0, newEntry] \<and>
   sqlQueries (last (notebookEntries (finalState
     (readLoop OutputType_spec (map Value [''=====SQL=====select 1=====END SQL=====''])
        [entry0, newEntry] (ui0\<lparr>notebookEntries := [entry0, newEntry]\<rparr>))))) = [''select 1''] \<and>
   allChunks (last (notebookEntries (finalState
     (readLoop OutputType_spec (map Value [''=====SQL=====select 1=====END SQL=====''])
        [entry0, newEntry] (ui0\<lparr>notebookEntries := [entry0, newEntry]\<rparr>))))) = []"
proof -
  let ?q = "''=====SQL=====select 1=====END SQL=====''"
  let ?st = "ui0\<lparr>notebookEntries := [entry0, newEntry]\<rparr>"
  have h1: "[entry0, newEntry] \<noteq> []" by simp
  have h2: "notebookEntries ?st = [entry0, newEntry]" by simp
  have h3: "concat (map (sqlOfRead OutputType_spec) [?q]) = [''select 1'']" by code_simp
  have h4: "concat (map (chunksOfRead OutputType_spec) [?q]) = []" by code_simp
  have h5: "sqlQueries (last [entry0, newEntry]) = []" "allChunks (last [entry0, newEntry]) = []"
    by (simp_all add: newEntry_def allChunks_def)
  from C1_each_read_scanned_alone [OF h1 h2, of OutputType_spec "[?q]"] obtain st' where
    st': "readLoop OutputType_spec (map Value [?q]) [entry0, newEntry] ?st = Returned st'"
      "sqlQueries (last (notebookEntries st')) =
         sqlQueries (last [entry0, newEntry]) @ concat (map (sqlOfRead OutputType_spec) [?q])"
      "allChunks (last (notebookEntries st')) =
         allChunks (last [entry0, newEntry]) @ concat (map (chunksOfRead OutputType_spec) [?q])"
    by blast
  from st'(2,3) h3 h4 h5 have "sqlQueries (last (notebookEntries st')) = [''select 1'']"
    and "allChunks (last (notebookEntries st')) = []"
    by simp_all
  with st'(1) h1 h2 show ?thesis by simp
qed

theorem C1_split_marker_counterexample:
  "finalState (sendMessage OutputType_spec ''p1''
      (streaming [Value ''=====SQL=='', Value ''===select 1=====END SQL====='']) ui0) =
     ui0\<lparr>notebookEntries := [entry0, newEntry\<lparr>outputs := [\<lparr>version = 1, chunks = []\<rparr>]\<rparr>],
          userSearch := []\<rparr> \<and>
   sqlQueries (newEntry\<lparr>outputs := [\<lparr>version = 1, chunks = []\<rparr>]\<rparr>) = []"
  by code_simp

lemma sendMessage_insert_fails:
  assumes "\<not> isSendingMessage st"
    and "selectedNotebookId st \<noteq> [] \<or> insertNotebookError w = None"
    and "insertEntryError w \<noteq> None"
  shows "\<exists>st'. sendMessage OutputType project_id w st = Returned st' \<and>
           notebookEntries st' = notebookEntries st \<and>
           notifications st' = notifications st @ [''Failed to create new notebook entry''] \<and>
           \<not> isSendingMessage st'"
  using assms by (cases "selectedNotebookId st = []") (auto simp add: sendMessage_def Let_def notify_def)

lemma sendMessage_not_ok:
  assumes "\<not> isSendingMessage st"
    and "selectedNotebookId st \<noteq> [] \<or> insertNotebookError w = None"
    and "insertEntryError w = None" and "\<not> responseOk w"
  shows "\<exists>st'. sendMessage OutputType project_id w st = Returned st' \<and>
           notebookEntries st' = notebookEntries st @ [createdEntry w st] \<and>
           notifications st' = notifications st @ [''Failed to send message''] \<and>
           \<not> isSendingMessage st'"
  using assms
  by (cases "selectedNotebookId st = []")
     (auto simp add: sendMessage_def Let_def notify_def createdEntry_def)

lemma sendMessage_no_body:
  assumes "\<not> isSendingMessage st"
    and "selectedNotebookId st \<noteq> [] \<or> insertNotebookError w = None"
    and "insertEntryError w = None" and "responseOk w" and "responseBody w = None"
  shows "\<exists>st'. sendMessage OutputType project_id w st = Returned st' \<and>
           notebookEntries st' = notebookEntries st @ [createdEntry w st] \<and>
           notifications st' = notifications st @ [''Failed to get stream from response''] \<and>
           \<not> isSendingMessage st'"
  using assms
  by (cases "selectedNotebookId st = []")
     (auto simp add: sendMessage_def Let_def notify_def createdEntry_def)

lemma sendMessage_streams:
  assumes "\<not> isSendingMessage st"
    and "selectedNotebookId st \<noteq> [] \<or> insertNotebookError w = None"
    and "insertEntryError w = None" and "responseOk w" and "responseBody w = Some stream"
  shows "\<exists>st4. sendMessage OutputType project_id w st =
             readLoop OutputType stream (notebookEntries st @ [createdEntry w st]) st4 \<and>
           notebookEntries st4 = notebookEntries st @ [createdEntry w st] \<and>
           notifications st4 = notifications st"
  using assms
  by (cases "selectedNotebookId st = []")
     (auto simp add: sendMessage_def Let_def createdEntry_def)

text \<open>
  C6 (as amended). When the insert of the new entry fails, the entry is taken out of
  the visible list again (the list is as before the submission) and the notice
  \<open>Failed to create new notebook entry\<close> is shown. When the insert has succeeded and
  the response is not ok or has no body, a notice is shown and the entry, which is
  stored by then, stays in the visible list with no SQL statement and no output.
  When a read is rejected after some reads were handled, the entry stays in the
  visible list as these reads have built it.
\<close>

theorem C6_rollback_only_when_insert_fails:
  assumes "\<not> isSendingMessage st"
    and "selectedNotebookId st \<noteq> [] \<or> insertNotebookError w = None"
  shows "(insertEntryError w \<noteq> None \<longrightarrow>
            (\<exists>st'. sendMessage OutputType project_id w st = Returned st' \<and>
               notebookEntries st' = notebookEntries st \<and>
               notifications st' = notifications st @ [''Failed to create new notebook entry''])) \<and>
         (insertEntryError w = None \<and> \<not> responseOk w \<longrightarrow>
            (\<exists>st'. sendMessage OutputType project_id w st = Returned st' \<and>
               notebookEntries st' = notebookEntries st @ [createdEntry w st] \<and>
               notifications st' = notifications st @ [''Failed to send message''])) \<and>
         (insertEntryError w = None \<and> responseOk w \<and> responseBody w = None \<longrightarrow>
            (\<exists>st'. sendMessage OutputType project_id w st = Returned st' \<and>
               notebookEntries st' = notebookEntries st @ [createdEntry w st] \<and>
               notifications st' = notifications st @ [''Failed to get stream from response''])) \<and>
         (insertEntryError w = None \<and> responseOk w \<and>
          responseBody w = Some (map Value ms @ Rejected # reads) \<longrightarrow>
            (\<exists>st'. sendMessage OutputType project_id w st = Threw st' \<and>
               notebookEntries st' =
                 notebookEntries st @ [handleReads OutputType ms (createdEntry w st)]))"
proof -
  have a: "insertEntryError w \<noteq> None \<longrightarrow>
            (\<exists>st'. sendMessage OutputType project_id w st = Returned st' \<and>
               notebookEntries st' = notebookEntries st \<and>
               notifications st' = notifications st @ [''Failed to create new notebook entry''])"
    using sendMessage_insert_fails [OF assms] by blast
  have b: "insertEntryError w = None \<and> \<not> responseOk w \<longrightarrow>
            (\<exists>st'. sendMessage OutputType project_id w st = Returned st' \<and>
               notebookEntries st' = notebookEntries st @ [createdEntry w st] \<and>
               notifications st' = notifications st @ [''Failed to send message''])"
    using sendMessage_not_ok [OF assms] by blast
  have c: "insertEntryError w = None \<and> responseOk w \<and> responseBody w = None \<longrightarrow>
            (\<exists>st'. sendMessage OutputType project_id w st = Returned st' \<and>
               notebookEntries st' = notebookEntries st @ [createdEntry w st] \<and>
               notifications st' = notifications st @ [''Failed to get stream from response''])"
    using sendMessage_no_body [OF assms] by blast
  have d: "insertEntryError w = None \<and> responseOk w \<and>
          responseBody w = Some (map Value ms @ Rejected # reads) \<longrightarrow>
            (\<exists>st'. sendMessage OutputType project_id w st = Threw st' \<and>
               notebookEntries st' =
                 notebookEntries st @ [handleReads OutputType ms (createdEntry w st)])"
  proof
    assume h: "insertEntryError w = None \<and> responseOk w \<and>
          responseBody w = Some (map Value ms @ Rejected # reads)"
    let ?l = "notebookEntries st @ [createdEntry w st]"
    from h sendMessage_streams [OF assms, where stream = "map Value ms @ Rejected # reads"
        and OutputType = OutputType and project_id = project_id]
    obtain st4 where
      st4: "sendMessage OutputType project_id w st =
              readLoop OutputType (map Value ms @ Rejected # reads) ?l st4"
           "notebookEntries st4 = ?l"
      by blast
    have "?l \<noteq> []" by simp
    from readLoop_Values_Rejected [OF this st4(2), where OutputType = OutputType and ms = ms
        and reads = reads] st4(1)
    have "sendMessage OutputType project_id w st =
        Threw (st4\<lparr>notebookEntries := butlast ?l @ [handleReads OutputType ms (last ?l)]\<rparr>)"
      by simp
    then show "\<exists>st'. sendMessage OutputType project_id w st = Threw st' \<and>
               notebookEntries st' =
                 notebookEntries st @ [handleReads OutputType ms (createdEntry w st)]"
      by simp
  qed
  from a b c d show ?thesis by blast
qed

theorem C6_rollback_only_when_insert_fails_witness:
  "\<not> isSendingMessage ui0 \<and>
   createdEntry (streaming []) ui0 = newEntry \<and>
   notebookEntries (finalState (sendMessage OutputType_spec ''p1''
      ((streaming [])\<lparr>insertEntryError := Some ''duplicate key''\<rparr>) ui0)) = [entry0] \<and>
   notifications (finalState (sendMessage OutputType_spec ''p1''
      ((streaming [])\<lparr>insertEntryError := Some ''duplicate key''\<rparr>) ui0)) =
     [''Failed to create new notebook entry''] \<and>
   notebookEntries (finalState (sendMessage OutputType_spec ''p1''
      (streaming (map Value [''=====TEXT=====partial=====END TEXT=====''] @ Rejected # [])) ui0)) =
     [entry0, newEntry\<lparr>outputs := [\<lparr>version = 1,
        chunks = [\<lparr>content_chunk = ''partial'', type_chunk = ''text''\<rparr>]\<rparr>]\<rparr>]"
proof -
  let ?w1 = "(streaming [])\<lparr>insertEntryError := Some ''duplicate key''\<rparr>"
  let ?m = "''=====TEXT=====partial=====END TEXT=====''"
  let ?w2 = "streaming (map Value [?m] @ Rejected # [])"
  have h0: "\<not> isSendingMessage ui0" by (simp add: ui0_def)
  have h1: "selectedNotebookId ui0 \<noteq> [] \<or> insertNotebookError ?w1 = None"
    by (simp add: ui0_def)
  have h1': "selectedNotebookId ui0 \<noteq> [] \<or> insertNotebookError ?w2 = None"
    by (simp add: ui0_def)
  have e1: "insertEntryError ?w1 \<noteq> None" by simp
  have e2: "insertEntryError ?w2 = None \<and> responseOk ?w2 \<and>
      responseBody ?w2 = Some (map Value [?m] @ Rejected # [])"
    by (simp add: streaming_def)
  have ce: "createdEntry (streaming []) ui0 = newEntry"
    by (simp add: createdEntry_def streaming_def ui0_def newEntry_def)
  have ce2: "createdEntry ?w2 ui0 = newEntry"
    by (simp add: createdEntry_def streaming_def ui0_def newEntry_def)
  have hr: "handleReads OutputType_spec [?m] newEntry =
      newEntry\<lparr>outputs := [\<lparr>version = 1,
        chunks = [\<lparr>content_chunk = ''partial'', type_chunk = ''text''\<rparr>]\<rparr>]\<rparr>"
    by code_simp
  have en: "notebookEntries ui0 = [entry0]" "notifications ui0 = []" by (simp_all add: ui0_def)
  from C6_rollback_only_when_insert_fails [OF h0 h1, where OutputType = OutputType_spec
      and project_id = "''p1''"] e1
  obtain s1 where s1: "sendMessage OutputType_spec ''p1'' ?w1 ui0 = Returned s1"
    "notebookEntries s1 = notebookEntries ui0"
    "notifications s1 = notifications ui0 @ [''Failed to create new notebook entry'']"
    by blast
  from C6_rollback_only_when_insert_fails [OF h0 h1', where OutputType = OutputType_spec
      and project_id = "''p1''" and ms = "[?m]" and reads = "[]"] e2
  obtain s2 where s2: "sendMessage OutputType_spec ''p1'' ?w2 ui0 = Threw s2"
    "notebookEntries s2 = notebookEntries ui0 @ [handleReads OutputType_spec [?m] (createdEntry ?w2 ui0)]"
    by blast
  from s1 en have "notebookEntries (finalState (sendMessage OutputType_spec ''p1'' ?w1 ui0)) = [entry0]"
    and "notifications (finalState (sendMessage OutputType_spec ''p1'' ?w1 ui0)) =
      [''Failed to create new notebook entry'']"
    by simp_all
  moreover from s2 en ce2 hr
  have "notebookEntries (finalState (sendMessage OutputType_spec ''p1'' ?w2 ui0)) =
     [entry0, newEntry\<lparr>outputs := [\<lparr>version = 1,
        chunks = [\<lparr>content_chunk = ''partial'', type_chunk = ''text''\<rparr>]\<rparr>]\<rparr>]"
    by simp
  ultimately show ?thesis using h0 ce by blast
qed

theorem C6_response_not_ok_counterexample:
  "sendMessage OutputType_spec ''p1'' ((streaming [])\<lparr>responseOk := False\<rparr>) ui0 =
     Returned (ui0\<lparr>notebookEntries := [entry0, newEntry], userSearch := [],
                   notifications := [''Failed to send message'']\<rparr>) \<and>
   sendMessage OutputType_spec ''p1'' ((streaming [])\<lparr>responseBody := None\<rparr>) ui0 =
     Returned (ui0\<lparr>notebookEntries := [entry0, newEntry], userSearch := [],
                   notifications := [''Failed to get stream from response'']\<rparr>) \<and>
   sqlQueries newEntry = [] \<and> outputs newEntry = []"
  by code_simp

end
